theory Spec2Isabelle
  imports Main "HOL-Library.Sublist"
begin

section \<open>The rate limiter of the Capacities client\<close>

text \<open>
  The class \<open>RateLimiter\<close> of \<open>src/client/capacities.ts\<close> keeps one window per endpoint
  type in a \<open>Map\<close>. The three keys of \<open>limits\<close> are the three values of the union type
  \<open>"general" | "search" | "weblink"\<close>.

  Times are \<open>Date.now()\<close> readings (integral milliseconds) and counters are small
  integers; both stay far inside the range where JavaScript numbers are exact, so they
  are modelled as \<open>int\<close> and \<open>nat\<close>.
\<close>

datatype endpoint_type = General | Search | Weblink

record rate_limit =
  maxRequests :: nat
  windowMs :: int

fun limits :: "endpoint_type \<Rightarrow> rate_limit" where
  "limits General = \<lparr>maxRequests = 5, windowMs = 60000\<rparr>"
| "limits Search = \<lparr>maxRequests = 120, windowMs = 60000\<rparr>"
| "limits Weblink = \<lparr>maxRequests = 10, windowMs = 60000\<rparr>"

record rate_window =
  requests :: nat
  resetTime :: int

type_synonym windows = "endpoint_type \<rightharpoonup> rate_window"

text \<open>
  One execution of the body of \<open>waitForSlot\<close> up to its first \<open>await\<close>. JavaScript runs
  it without interruption, so it is one atomic step on the map: it either returns
  (\<open>Granted\<close>) or arms a timer of \<open>waitTime\<close> milliseconds (\<open>Suspend waitTime\<close>), after which
  \<open>waitForSlot\<close> is called again. \<open>now\<close> is the value \<open>Date.now()\<close> returned.
  \<open>window.requests++\<close> mutates the object held by the map, hence the map update in the
  last branch.
\<close>

datatype slot_outcome = Granted | Suspend int

definition waitForSlot_body :: "endpoint_type \<Rightarrow> int \<Rightarrow> windows \<Rightarrow> slot_outcome \<times> windows" where
  "waitForSlot_body endpoint now ws =
     (let limit = limits endpoint in
      case ws endpoint of
        None \<Rightarrow> (Granted, ws(endpoint \<mapsto> \<lparr>requests = 1, resetTime = now + windowMs limit\<rparr>))
      | Some window \<Rightarrow>
          if now \<ge> resetTime window
          then (Granted, ws(endpoint \<mapsto> \<lparr>requests = 1, resetTime = now + windowMs limit\<rparr>))
          else if requests window \<ge> maxRequests limit
          then (Suspend (resetTime window - now), ws)
          else (Granted, ws(endpoint \<mapsto> window\<lparr>requests := requests window + 1\<rparr>)))"

text \<open>
  What happens while one caller sleeps: the timer fires \<open>lateness\<close> milliseconds after
  its delay has elapsed (\<open>setTimeout\<close> never runs its callback early, so the lateness is
  a natural number; the delay is at most \<open>windowMs\<close> unless the clock has gone backwards,
  far below the longest delay a timer takes), and in the meantime other callers have
  executed the body of \<open>waitForSlot\<close> any number of times, each with its own endpoint
  type and clock reading.
\<close>

record wake =
  lateness :: nat
  others :: "(endpoint_type \<times> int) list"

fun run_bodies :: "(endpoint_type \<times> int) list \<Rightarrow> windows \<Rightarrow> windows" where
  "run_bodies [] ws = ws"
| "run_bodies ((endpoint, now) # evs) ws = run_bodies evs (snd (waitForSlot_body endpoint now ws))"

text \<open>
  The whole asynchronous \<open>waitForSlot\<close> of one caller, called at time \<open>now\<close>. The list
  of wake-ups is what the environment provides for the caller's successive sleeps; the
  result is \<open>None\<close> when the caller is still asleep after the last of them, and
  otherwise the time at which the promise resolves together with the map at that moment.
\<close>

fun waitForSlot :: "endpoint_type \<Rightarrow> int \<Rightarrow> wake list \<Rightarrow> windows \<Rightarrow> (int \<times> windows) option" where
  "waitForSlot endpoint now wakes ws =
     (case waitForSlot_body endpoint now ws of
        (Granted, ws') \<Rightarrow> Some (now, ws')
      | (Suspend waitTime, ws') \<Rightarrow>
          (case wakes of
             [] \<Rightarrow> None
           | w # wakes' \<Rightarrow>
               waitForSlot endpoint (now + waitTime + int (lateness w)) wakes'
                 (run_bodies (others w) ws')))"

text \<open>
  A run of the limiter seen from outside: every execution of the body, by whichever
  caller and whether a first call or a retry after a sleep, in the order in which they
  happen. The log records the executions that were granted a slot.
\<close>

fun run_log :: "(endpoint_type \<times> int) list \<Rightarrow> windows \<Rightarrow> (endpoint_type \<times> int) list \<times> windows" where
  "run_log [] ws = ([], ws)"
| "run_log ((endpoint, now) # evs) ws =
     (case waitForSlot_body endpoint now ws of
        (Granted, ws') \<Rightarrow> (case run_log evs ws' of (log, ws'') \<Rightarrow> ((endpoint, now) # log, ws''))
      | (Suspend waitTime, ws') \<Rightarrow> run_log evs ws')"

text \<open>
  The slots granted to an endpoint type at a time within the window that starts at
  \<open>start\<close> and lasts \<open>len\<close> milliseconds.
\<close>

definition admitted_in :: "endpoint_type \<Rightarrow> int \<Rightarrow> int \<Rightarrow> (endpoint_type \<times> int) list \<Rightarrow> nat" where
  "admitted_in endpoint start len log =
     length (filter (\<lambda>(e, t). e = endpoint \<and> start \<le> t \<and> t < start + len) log)"

text \<open>
  A sequence of calls of one caller after another, each at its own time and with no
  wake-up available: a call that returns did so without ever sleeping.
\<close>

fun immediate_all :: "endpoint_type \<Rightarrow> int list \<Rightarrow> windows \<Rightarrow> bool" where
  "immediate_all endpoint [] ws = True"
| "immediate_all endpoint (now # nows) ws =
     (case waitForSlot endpoint now [] ws of
        None \<Rightarrow> False
      | Some (t, ws') \<Rightarrow> t = now \<and> immediate_all endpoint nows ws')"


section \<open>The request gateway\<close>

subsection \<open>Values, errors and HTTP messages\<close>

text \<open>
  A parsed JSON value, as \<open>response.json()\<close> produces it. The members of an object
  are its properties, each name once. Numbers are never inspected by the client;
  integers stand for them. Strings are sequences of code units; every string the client
  searches for or emits is ASCII, so the encoding behind \<open>char\<close> does not matter.
\<close>

datatype json =
  JNull | JBool bool | JNum int | JStr string | JArr "json list" | JObj "(string \<times> json) list"

text \<open>
  What an asynchronous method can end with. \<open>CapacitiesAPIError code message\<close> is the
  class of the module (its optional \<open>details\<close> are never supplied); \<open>FetchRejected\<close> is
  whatever \<open>fetch\<close> itself rejects with, which \<open>makeRequest\<close> does not catch; \<open>TypeError\<close>
  is the error of reading a property of \<open>null\<close>.
\<close>

datatype thrown = CapacitiesAPIError string string | FetchRejected string | TypeError

datatype 'a outcome = Returned 'a | Thrown thrown

record client_config =
  baseUrl :: string
  apiToken :: string

text \<open>
  The \<open>RequestInit\<close> a method of the client passes to \<open>makeRequest\<close>; its field
  \<open>method\<close> is \<open>method'\<close> here.
\<close>

record request_init =
  method' :: "string option"
  headers :: "string \<rightharpoonup> string"
  body :: "string option"

definition no_options :: request_init where
  "no_options = \<lparr>method' = None, headers = Map.empty, body = None\<rparr>"

text \<open>The arguments of the call of \<open>fetch\<close>.\<close>

record http_request =
  req_url :: string
  req_method :: "string option"
  req_headers :: "string \<rightharpoonup> string"
  req_body :: "string option"

text \<open>
  What the client reads of a \<open>Response\<close>: the status, the two headers
  (\<open>headers.get\<close> returns \<open>null\<close> for a header that is absent) and the result of
  \<open>response.json()\<close>, which is \<open>None\<close> when that promise rejects.
\<close>

record http_response =
  status :: nat
  contentType :: "string option"
  contentLength :: "string option"
  jsonBody :: "json option"

datatype fetch_result = Rejected string | Responded http_response

definition ok :: "http_response \<Rightarrow> bool" where
  "ok response \<longleftrightarrow> 200 \<le> status response \<and> status response \<le> 299"

subsection \<open>Strings\<close>

text \<open>\<open>String.prototype.includes\<close>: the second string occurs somewhere in the first.\<close>

fun includes_str :: "string \<Rightarrow> string \<Rightarrow> bool" where
  "includes_str [] t = (t = [])"
| "includes_str (c # s) t = (prefix t (c # s) \<or> includes_str s t)"

definition digit_char :: "nat \<Rightarrow> char" where
  "digit_char d = ''0123456789abcdef'' ! d"

text \<open>A status code inside a template literal: the decimal digits of the number.\<close>

fun decimal :: "nat \<Rightarrow> string" where
  "decimal n = (if n < 10 then [digit_char n] else decimal (n div 10) @ [digit_char (n mod 10)])"

declare decimal.simps [simp del]

subsection \<open>\<open>JSON.stringify\<close> of the object literals of the client\<close>

text \<open>
  The values the client puts into a request body are strings, arrays of strings and
  booleans; a property whose value is \<open>undefined\<close> (\<open>None\<close> here) is left out by
  \<open>JSON.stringify\<close>, and the others appear in the order of the literal.
\<close>

datatype body_value = BString string | BStrings "string list" | BBoolean bool

definition quote_char :: "char \<Rightarrow> string" where
  "quote_char c =
     (if c = CHR 0x08 then [CHR 0x5C, CHR ''b'']
      else if c = CHR 0x09 then [CHR 0x5C, CHR ''t'']
      else if c = CHR 0x0A then [CHR 0x5C, CHR ''n'']
      else if c = CHR 0x0C then [CHR 0x5C, CHR ''f'']
      else if c = CHR 0x0D then [CHR 0x5C, CHR ''r'']
      else if c = CHR 0x22 then [CHR 0x5C, CHR 0x22]
      else if c = CHR 0x5C then [CHR 0x5C, CHR 0x5C]
      else if (of_char c :: nat) < 32
      then [CHR 0x5C, CHR ''u'', CHR ''0'', CHR ''0'',
            digit_char (of_char c div 16), digit_char (of_char c mod 16)]
      else [c])"

definition quote :: "string \<Rightarrow> string" where
  "quote s = [CHR 0x22] @ concat (map quote_char s) @ [CHR 0x22]"

fun intercalate :: "string \<Rightarrow> string list \<Rightarrow> string" where
  "intercalate sep [] = []"
| "intercalate sep [x] = x"
| "intercalate sep (x # y # ys) = x @ sep @ intercalate sep (y # ys)"

fun render_value :: "body_value \<Rightarrow> string" where
  "render_value (BString s) = quote s"
| "render_value (BStrings xs) = ''['' @ intercalate '','' (map quote xs) @ '']''"
| "render_value (BBoolean b) = (if b then ''true'' else ''false'')"

text \<open>The text of an object with exactly the given members, in this order.\<close>

definition render_object :: "(string \<times> body_value) list \<Rightarrow> string" where
  "render_object members =
     ''{'' @ intercalate '','' (map (\<lambda>(k, v). quote k @ '':'' @ render_value v) members) @ ''}''"

fun defined_props :: "(string \<times> body_value option) list \<Rightarrow> (string \<times> body_value) list" where
  "defined_props [] = []"
| "defined_props ((k, None) # props) = defined_props props"
| "defined_props ((k, Some v) # props) = (k, v) # defined_props props"

definition JSON_stringify :: "(string \<times> body_value option) list \<Rightarrow> string" where
  "JSON_stringify props = render_object (defined_props props)"

subsection \<open>\<open>CapacitiesClient.makeRequest\<close>\<close>

fun getEndpointType :: "string \<Rightarrow> endpoint_type" where
  "getEndpointType endpoint =
     (if includes_str endpoint ''/search'' then Search
      else if includes_str endpoint ''/save-weblink'' then Weblink
      else General)"

declare getEndpointType.simps [simp del]

definition success_marker :: json where
  "success_marker = JObj [(''success'', JBool True)]"

text \<open>The second half of \<open>makeRequest\<close>, reached when \<open>response.ok\<close> holds.\<close>

definition normalize_response :: "http_response \<Rightarrow> json" where
  "normalize_response response =
     (if contentLength response = Some ''0'' \<or>
         \<not> (case contentType response of
              None \<Rightarrow> False
            | Some ct \<Rightarrow> includes_str ct ''application/json'')
      then success_marker
      else (case jsonBody response of
              Some parsed \<Rightarrow> parsed
            | None \<Rightarrow> success_marker))"

text \<open>
  A call that has settled: how it ended, the request it handed to \<open>fetch\<close>, and the
  windows of the rate limiter afterwards.
\<close>

record 'a completion =
  result :: "'a outcome"
  sent :: http_request
  limiter :: windows

text \<open>
  \<open>makeRequest\<close> of a client built from \<open>cfg\<close>, called at time \<open>now\<close>. \<open>fetch\<close> is
  the network as the client meets it. The result is \<open>None\<close> when the caller never
  leaves \<open>waitForSlot\<close> with the wake-ups it is given. The object spread puts the headers
  of \<open>options\<close> after the two fixed ones, so they win where the names coincide.
\<close>

definition makeRequest ::
  "client_config \<Rightarrow> (http_request \<Rightarrow> fetch_result) \<Rightarrow> string \<Rightarrow> request_init \<Rightarrow>
     int \<Rightarrow> wake list \<Rightarrow> windows \<Rightarrow> json completion option" where
  "makeRequest cfg fetch endpoint options now wakes ws =
     (let endpointType = getEndpointType endpoint in
      case waitForSlot endpointType now wakes ws of
        None \<Rightarrow> None
      | Some (t, ws') \<Rightarrow>
          let request =
            \<lparr>req_url = baseUrl cfg @ endpoint,
             req_method = method' options,
             req_headers =
               [''Authorization'' \<mapsto> ''Bearer '' @ apiToken cfg,
                ''Content-Type'' \<mapsto> ''application/json''] ++ headers options,
             req_body = body options\<rparr>
          in Some
            \<lparr>result =
               (case fetch request of
                  Rejected reason \<Rightarrow> Thrown (FetchRejected reason)
                | Responded response \<Rightarrow>
                    if \<not> ok response then
                      if status response = 429
                      then Thrown (CapacitiesAPIError ''RATE_LIMIT_EXCEEDED'' ''Rate limit exceeded'')
                      else if status response = 401
                      then Thrown (CapacitiesAPIError ''AUTHENTICATION_FAILED'' ''Invalid API token'')
                      else Thrown (CapacitiesAPIError ''API_ERROR''
                             (''API error: '' @ decimal (status response)))
                    else Returned (normalize_response response)),
             sent = request,
             limiter = ws'\<rparr>)"

subsection \<open>The public methods\<close>

text \<open>
  Reading the property \<open>name\<close> of a parsed value: a \<open>TypeError\<close> on \<open>null\<close>, the
  member of an object when it has one, and \<open>undefined\<close> (\<open>None\<close>) in every other case.
\<close>

fun get_prop :: "json \<Rightarrow> string \<Rightarrow> json option outcome" where
  "get_prop JNull name = Thrown TypeError"
| "get_prop (JObj members) name = Returned (map_of members name)"
| "get_prop v name = Returned None"

definition unwrap :: "string \<Rightarrow> json completion \<Rightarrow> json option completion" where
  "unwrap name c =
     \<lparr>result = (case result c of
                  Thrown e \<Rightarrow> Thrown e
                | Returned response \<Rightarrow> get_prop response name),
      sent = sent c,
      limiter = limiter c\<rparr>"

datatype search_mode = FullText | Title

fun mode_string :: "search_mode \<Rightarrow> string" where
  "mode_string FullText = ''fullText''"
| "mode_string Title = ''title''"

record search_options =
  query :: string
  spaceIds :: "string list"
  mode :: "search_mode option"
  structureIds :: "string list option"

text \<open>\<open>SaveWeblinkOptions\<close>; its field \<open>notes\<close> is \<open>notes'\<close> here.\<close>

record save_weblink_options =
  spaceId :: string
  url :: string
  title :: "string option"
  description :: "string option"
  tags :: "string list option"
  notes' :: "string option"

text \<open>
  \<open>SaveToDailyNoteOptions\<close>; its field \<open>spaceId\<close> is \<open>noteSpaceId\<close> here, the name
  being taken by the record above.
\<close>

record save_to_daily_note_options =
  noteSpaceId :: string
  content :: string
  noTimestamp :: "bool option"

definition getSpaces ::
  "client_config \<Rightarrow> (http_request \<Rightarrow> fetch_result) \<Rightarrow>
     int \<Rightarrow> wake list \<Rightarrow> windows \<Rightarrow> json option completion option" where
  "getSpaces cfg fetch now wakes ws =
     map_option (unwrap ''spaces'') (makeRequest cfg fetch ''/spaces'' no_options now wakes ws)"

definition getSpaceInfo ::
  "client_config \<Rightarrow> (http_request \<Rightarrow> fetch_result) \<Rightarrow> string \<Rightarrow>
     int \<Rightarrow> wake list \<Rightarrow> windows \<Rightarrow> json completion option" where
  "getSpaceInfo cfg fetch space now wakes ws =
     makeRequest cfg fetch (''/space-info?spaceid='' @ space) no_options now wakes ws"

definition searchContent ::
  "client_config \<Rightarrow> (http_request \<Rightarrow> fetch_result) \<Rightarrow> search_options \<Rightarrow>
     int \<Rightarrow> wake list \<Rightarrow> windows \<Rightarrow> json option completion option" where
  "searchContent cfg fetch options now wakes ws =
     map_option (unwrap ''results'')
       (makeRequest cfg fetch ''/search''
          \<lparr>method' = Some ''POST'',
           headers = Map.empty,
           body = Some (JSON_stringify
             [(''searchTerm'', Some (BString (query options))),
              (''spaceIds'', Some (BStrings (spaceIds options))),
              (''mode'', Some (BString (case mode options of
                                         None \<Rightarrow> ''fullText''
                                       | Some m \<Rightarrow> mode_string m))),
              (''filterStructureIds'', map_option BStrings (structureIds options))])\<rparr>
          now wakes ws)"

definition saveWeblink ::
  "client_config \<Rightarrow> (http_request \<Rightarrow> fetch_result) \<Rightarrow> save_weblink_options \<Rightarrow>
     int \<Rightarrow> wake list \<Rightarrow> windows \<Rightarrow> json completion option" where
  "saveWeblink cfg fetch options now wakes ws =
     makeRequest cfg fetch ''/save-weblink''
       \<lparr>method' = Some ''POST'',
        headers = Map.empty,
        body = Some (JSON_stringify
          [(''spaceId'', Some (BString (spaceId options))),
           (''url'', Some (BString (url options))),
           (''titleOverwrite'', map_option BString (title options)),
           (''descriptionOverwrite'', map_option BString (description options)),
           (''tags'', Some (BStrings (case tags options of None \<Rightarrow> [] | Some ts \<Rightarrow> ts))),
           (''mdText'', map_option BString (notes' options))])\<rparr>
       now wakes ws"

definition saveToDailyNote ::
  "client_config \<Rightarrow> (http_request \<Rightarrow> fetch_result) \<Rightarrow> save_to_daily_note_options \<Rightarrow>
     int \<Rightarrow> wake list \<Rightarrow> windows \<Rightarrow> json completion option" where
  "saveToDailyNote cfg fetch options now wakes ws =
     makeRequest cfg fetch ''/save-to-daily-note''
       \<lparr>method' = Some ''POST'',
        headers = Map.empty,
        body = Some (JSON_stringify
          [(''spaceId'', Some (BString (noteSpaceId options))),
           (''mdText'', Some (BString (content options))),
           (''noTimeStamp'', Some (BBoolean (case noTimestamp options of
                                               None \<Rightarrow> False
                                             | Some b \<Rightarrow> b)))])\<rparr>
       now wakes ws"

text \<open>Whether what a method returned is an array, as \<open>Array.isArray\<close> decides it.\<close>

fun is_array :: "json option \<Rightarrow> bool" where
  "is_array (Some (JArr items)) = True"
| "is_array v = False"


section \<open>Auxiliary notions for the proofs\<close>

text \<open>
  The invariant of a run whose clock readings never decrease: \<open>T\<close> is the latest
  reading; every logged slot is no later than \<open>T\<close>; an endpoint type without a window
  has been granted nothing; and a window holds at most \<open>maxRequests\<close> requests, started
  no later than \<open>T\<close>, ends after every slot granted to its endpoint type, and counts
  exactly the slots granted since it started.
\<close>

definition win_ok :: "int \<Rightarrow> (endpoint_type \<times> int) list \<Rightarrow> endpoint_type \<Rightarrow> rate_window option \<Rightarrow> bool" where
  "win_ok T log e wo =
     (case wo of
        None \<Rightarrow> (\<forall>t. (e, t) \<notin> set log)
      | Some w \<Rightarrow>
          requests w \<le> maxRequests (limits e) \<and>
          resetTime w - windowMs (limits e) \<le> T \<and>
          (\<forall>t. (e, t) \<in> set log \<longrightarrow> t < resetTime w) \<and>
          admitted_in e (resetTime w - windowMs (limits e)) (windowMs (limits e)) log = requests w)"

definition win_inv :: "int \<Rightarrow> windows \<Rightarrow> (endpoint_type \<times> int) list \<Rightarrow> bool" where
  "win_inv T ws log \<longleftrightarrow>
     (\<forall>e t. (e, t) \<in> set log \<longrightarrow> t \<le> T) \<and> (\<forall>e. win_ok T log e (ws e))"

text \<open>The budget of the current window that is spent at time \<open>now\<close>.\<close>

definition used :: "endpoint_type \<Rightarrow> int \<Rightarrow> windows \<Rightarrow> nat" where
  "used e now ws = (case ws e of None \<Rightarrow> 0 | Some w \<Rightarrow> if resetTime w \<le> now then 0 else requests w)"

text \<open>
  Five callers that run the body for \<open>General\<close> one millisecond after a window ending
  at 2000 has expired: the first opens a new window and the five of them fill it.
\<close>

definition rivals :: "(endpoint_type \<times> int) list" where
  "rivals = [(General, 2001), (General, 2001), (General, 2001), (General, 2001), (General, 2001)]"

text \<open>Eight executions of the body, seven of them for \<open>General\<close>, within seven milliseconds.\<close>

definition burst :: "(endpoint_type \<times> int) list" where
  "burst = [(General, 0), (General, 1), (Search, 1), (General, 2), (General, 3), (General, 4),
            (General, 5), (General, 6)]"


text \<open>How a settled call failed, if it did.\<close>

definition failure :: "'a completion \<Rightarrow> thrown option" where
  "failure c = (case result c of Thrown e \<Rightarrow> Some e | Returned v \<Rightarrow> None)"

text \<open>
  The five public methods of \<open>CapacitiesClient\<close> as one family, so that a statement can
  range over every request the client dispatches: what a call threw, if anything, and the
  request it handed to \<open>fetch\<close>.
\<close>

datatype api_call =
  GetSpaces
| GetSpaceInfo string
| SearchContent search_options
| SaveWeblink save_weblink_options
| SaveToDailyNote save_to_daily_note_options

fun invoke ::
  "client_config \<Rightarrow> (http_request \<Rightarrow> fetch_result) \<Rightarrow> api_call \<Rightarrow>
     int \<Rightarrow> wake list \<Rightarrow> windows \<Rightarrow> (thrown option \<times> http_request) option" where
  "invoke cfg fetch GetSpaces now wakes ws =
     map_option (\<lambda>c. (failure c, sent c)) (getSpaces cfg fetch now wakes ws)"
| "invoke cfg fetch (GetSpaceInfo space) now wakes ws =
     map_option (\<lambda>c. (failure c, sent c)) (getSpaceInfo cfg fetch space now wakes ws)"
| "invoke cfg fetch (SearchContent options) now wakes ws =
     map_option (\<lambda>c. (failure c, sent c)) (searchContent cfg fetch options now wakes ws)"
| "invoke cfg fetch (SaveWeblink options) now wakes ws =
     map_option (\<lambda>c. (failure c, sent c)) (saveWeblink cfg fetch options now wakes ws)"
| "invoke cfg fetch (SaveToDailyNote options) now wakes ws =
     map_option (\<lambda>c. (failure c, sent c)) (saveToDailyNote cfg fetch options now wakes ws)"

text \<open>The three messages \<open>makeRequest\<close> gives its errors, by the status they are raised for.\<close>

definition status_message :: "nat \<Rightarrow> string" where
  "status_message s =
     (if s = 429 then ''Rate limit exceeded''
      else if s = 401 then ''Invalid API token''
      else ''API error: '' @ decimal s)"

text \<open>A member that is present only when its value is.\<close>

fun optional_member :: "string \<Rightarrow> string option \<Rightarrow> (string \<times> body_value) list" where
  "optional_member name None = []"
| "optional_member name (Some s) = [(name, BString s)]"

text \<open>
  Sample inputs: a client, an upstream that answers every request with the same
  response, and some responses and arguments.
\<close>

definition demo_config :: client_config where
  "demo_config = \<lparr>baseUrl = ''https://api.example'', apiToken = ''secret''\<rparr>"

definition upstream :: "http_response \<Rightarrow> http_request \<Rightarrow> fetch_result" where
  "upstream response request = Responded response"

definition reply :: "nat \<Rightarrow> http_response" where
  "reply s = \<lparr>status = s, contentType = Some ''application/json; charset=utf-8'',
              contentLength = Some ''17'', jsonBody = Some (JObj [(''spaces'', JArr [])])\<rparr>"

definition empty_reply :: http_response where
  "empty_reply = \<lparr>status = 204, contentType = None, contentLength = Some ''0'', jsonBody = None\<rparr>"



definition demo_search :: search_options where
  "demo_search = \<lparr>query = ''x'', spaceIds = [''s1''], mode = None, structureIds = None\<rparr>"

definition demo_weblink :: save_weblink_options where
  "demo_weblink = \<lparr>spaceId = ''sp'', url = ''https://e.org'', title = Some ''T'',
                    description = None, tags = None, notes' = None\<rparr>"
text \<open>
  The \<open>fetch\<close> of the runtime, as far as header values go: it refuses a request whose
  \<open>Authorization\<close> value contains a line feed and rejects with a message that quotes the
  value; every other request gets the given response. (The runtime refuses some other
  characters too, and any header; the line feed in this header is the case used below.)
\<close>

definition line_feed :: char where
  "line_feed = CHR 0x0A"

definition runtime_fetch :: "http_response \<Rightarrow> http_request \<Rightarrow> fetch_result" where
  \<open>runtime_fetch response request =
     (case req_headers request ''Authorization'' of
        None \<Rightarrow> Responded response
      | Some v \<Rightarrow>
          if line_feed \<in> set v
          then Rejected (''Headers.append: "'' @ v @ ''" is an invalid header value.'')
          else Responded response)\<close>

text \<open>Two tokens with a line feed inside, each a non-empty string as the client accepts it.\<close>

definition split_token :: string where
  "split_token = ''abc'' @ [line_feed] @ ''def''"

definition other_split_token :: string where
  "other_split_token = ''uvw'' @ [line_feed] @ ''xyz''"


section \<open>Properties of the rate limiter\<close>

subsection \<open>The window invariant\<close>

lemma win_inv_bound: "win_inv T ws log \<Longrightarrow> (e, t) \<in> set log \<Longrightarrow> t \<le> T"
  by (auto simp: win_inv_def)

lemma win_inv_ok: "win_inv T ws log \<Longrightarrow> win_ok T log e (ws e)"
  by (simp add: win_inv_def)

lemma win_ok_mono: "win_ok T log e wo \<Longrightarrow> T \<le> T' \<Longrightarrow> win_ok T' log e wo"
  by (auto simp: win_ok_def split: option.splits)

lemma windowMs_pos: "0 < windowMs (limits e)"
  by (cases e) simp_all

lemma maxRequests_pos: "0 < maxRequests (limits e)"
  by (cases e) simp_all

lemma admitted_in_snoc:
  "admitted_in e s l (log @ [(e', t)]) =
     admitted_in e s l log + (if e' = e \<and> s \<le> t \<and> t < s + l then 1 else 0)"
  by (simp add: admitted_in_def)

lemma admitted_in_none:
  "(\<And>t. (e, t) \<in> set log \<Longrightarrow> t < s) \<Longrightarrow> admitted_in e s l log = 0"
  by (fastforce simp: admitted_in_def filter_empty_conv)


lemma win_ok_snoc_other:
  "win_ok T log e wo \<Longrightarrow> e' \<noteq> e \<Longrightarrow> win_ok T (log @ [(e', t)]) e wo"
  by (auto simp: win_ok_def admitted_in_snoc split: option.splits)

lemma win_inv_other:
  assumes inv: "win_inv T ws log" and le: "T \<le> now"
  shows "win_inv now ws log"
  using inv le win_ok_mono unfolding win_inv_def
  by fastforce

lemma win_ok_fresh:
  assumes old: "\<And>t. (endpoint, t) \<in> set log \<Longrightarrow> t < now"
  shows "win_ok now (log @ [(endpoint, now)]) endpoint
           (Some \<lparr>requests = 1, resetTime = now + windowMs (limits endpoint)\<rparr>)"
proof -
  have count: "admitted_in endpoint now (windowMs (limits endpoint)) (log @ [(endpoint, now)]) = 1"
    using admitted_in_none [of endpoint log now] old windowMs_pos [of endpoint]
    by (simp add: admitted_in_snoc)
  have "\<And>t. (endpoint, t) \<in> set log \<Longrightarrow> t < now + windowMs (limits endpoint)"
    using old windowMs_pos [of endpoint] by fastforce
  then show ?thesis
    using count maxRequests_pos [of endpoint] windowMs_pos [of endpoint]
    by (auto simp: win_ok_def Suc_le_eq)
qed

lemma win_ok_incr:
  assumes ok: "win_ok T log endpoint (Some window)" and le: "T \<le> now"
    and live: "now < resetTime window"
    and room: "requests window < maxRequests (limits endpoint)"
  shows "win_ok now (log @ [(endpoint, now)]) endpoint
           (Some (window\<lparr>requests := requests window + 1\<rparr>))"
  using assms by (auto simp: win_ok_def admitted_in_snoc)

lemma win_inv_grant:
  assumes inv: "win_inv T ws log" and le: "T \<le> now"
    and new: "win_ok now (log @ [(endpoint, now)]) endpoint (Some w)"
  shows "win_inv now (ws(endpoint \<mapsto> w)) (log @ [(endpoint, now)])"
  unfolding win_inv_def
proof (intro conjI allI impI)
  fix e t assume "(e, t) \<in> set (log @ [(endpoint, now)])"
  then show "t \<le> now" using win_inv_bound [OF inv] le by fastforce
next
  fix e
  show "win_ok now (log @ [(endpoint, now)]) e ((ws(endpoint \<mapsto> w)) e)"
  proof (cases "e = endpoint")
    case True
    then show ?thesis using new by simp
  next
    case False
    then show ?thesis
      using win_ok_snoc_other [OF win_ok_mono [OF win_inv_ok [OF inv] le], of endpoint e now]
      by simp
  qed
qed

lemma win_inv_step:
  assumes inv: "win_inv T ws log" and le: "T \<le> now"
    and body: "waitForSlot_body endpoint now ws = (out, ws')"
  shows "win_inv now ws' (if out = Granted then log @ [(endpoint, now)] else log)"
proof (cases "ws endpoint")
  case None
  then have "\<And>t. (endpoint, t) \<in> set log \<Longrightarrow> t < now"
    using win_inv_ok [OF inv, of endpoint] by (simp add: win_ok_def)
  from win_inv_grant [OF inv le win_ok_fresh [OF this]] body None show ?thesis
    by (auto simp: waitForSlot_body_def)
next
  case (Some window)
  have ok: "win_ok T log endpoint (Some window)"
    using win_inv_ok [OF inv, of endpoint] Some by simp
  show ?thesis
  proof (cases "resetTime window \<le> now")
    case True
    have "\<And>t. (endpoint, t) \<in> set log \<Longrightarrow> t < now"
      using ok True by (fastforce simp: win_ok_def)
    from win_inv_grant [OF inv le win_ok_fresh [OF this]] body Some True show ?thesis
      by (auto simp: waitForSlot_body_def)
  next
    case live: False
    show ?thesis
    proof (cases "maxRequests (limits endpoint) \<le> requests window")
      case True
      with body Some live win_inv_other [OF inv le] show ?thesis
        by (auto simp: waitForSlot_body_def)
    next
      case False
      with win_inv_grant [OF inv le win_ok_incr [OF ok le]] body Some live show ?thesis
        by (auto simp: waitForSlot_body_def)
    qed
  qed
qed

lemma run_log_inv:
  assumes "win_inv T ws log0" and "sorted (map snd evs)" and "\<forall>t \<in> set (map snd evs). T \<le> t"
    and "run_log evs ws = (log, ws')"
  shows "\<exists>T'. win_inv T' ws' (log0 @ log)"
  using assms
proof (induction evs arbitrary: T ws log0 log)
  case Nil
  then show ?case by auto
next
  case (Cons ev evs)
  obtain endpoint now where ev: "ev = (endpoint, now)" by (cases ev)
  obtain out ws1 where body: "waitForSlot_body endpoint now ws = (out, ws1)"
    by (cases "waitForSlot_body endpoint now ws")
  obtain log1 where rest: "run_log evs ws1 = (log1, ws')"
    and log: "log = (if out = Granted then (endpoint, now) # log1 else log1)"
    using Cons.prems(4) ev body by (cases out; auto split: prod.splits)
  have le: "T \<le> now" using Cons.prems(3) ev by simp
  have step: "win_inv now ws1 (if out = Granted then log0 @ [(endpoint, now)] else log0)"
    using win_inv_step [OF Cons.prems(1) le body] .
  have srt: "sorted (map snd evs)" and ge: "\<forall>t \<in> set (map snd evs). now \<le> t"
    using Cons.prems(2) ev by auto
  from Cons.IH [OF step srt ge rest] log show ?case by (cases "out = Granted") auto
qed

lemma win_inv_empty: "win_inv T Map.empty []"
  by (simp add: win_inv_def win_ok_def)


lemma body_bounded:
  assumes "\<And>e w. ws e = Some w \<Longrightarrow> requests w \<le> maxRequests (limits e)"
    and "snd (waitForSlot_body endpoint now ws) e = Some w"
  shows "requests w \<le> maxRequests (limits e)"
proof (cases "e = endpoint")
  case True
  with assms maxRequests_pos [of endpoint] show ?thesis
    by (auto simp: waitForSlot_body_def Let_def Suc_le_eq split: option.splits if_splits)
next
  case False
  with assms show ?thesis
    by (auto simp: waitForSlot_body_def Let_def split: option.splits if_splits)
qed

lemma snd_run_log: "snd (run_log evs ws) = run_bodies evs ws"
  by (induction evs ws rule: run_bodies.induct)
     (auto split: prod.splits slot_outcome.splits)

lemma run_bodies_bounded:
  assumes "\<And>e w. ws e = Some w \<Longrightarrow> requests w \<le> maxRequests (limits e)"
    and "run_bodies evs ws e = Some w"
  shows "requests w \<le> maxRequests (limits e)"
  using assms
proof (induction evs ws arbitrary: e w rule: run_bodies.induct)
  case (1 ws)
  then show ?case by simp
next
  case (2 endpoint now evs ws)
  show ?case
  proof (rule "2.IH")
    show "run_bodies evs (snd (waitForSlot_body endpoint now ws)) e = Some w"
      using "2.prems"(2) by simp
  next
    fix e' w' assume "snd (waitForSlot_body endpoint now ws) e' = Some w'"
    then show "requests w' \<le> maxRequests (limits e')"
      using body_bounded "2.prems"(1) by blast
  qed
qed

text \<open>
  C1. In every run of a fresh limiter, whatever the callers, their order and the clock
  readings, the window of an endpoint type never holds more than \<open>maxRequests\<close>
  requests, at any time and so in particular while \<open>now < resetTime\<close>. When the clock
  readings do not decrease, \<open>requests\<close> is exactly the number of slots granted to the
  endpoint type within the window (from \<open>resetTime - windowMs\<close> to \<open>resetTime\<close>), so at
  most \<open>maxRequests\<close> acquisitions are admitted within one window.
\<close>

theorem window_never_exceeds_maxRequests:
  assumes "run_log evs Map.empty = (log, ws)" and "ws endpoint = Some window"
  shows "requests window \<le> maxRequests (limits endpoint) \<and>
         (sorted (map snd evs) \<longrightarrow>
            admitted_in endpoint (resetTime window - windowMs (limits endpoint))
              (windowMs (limits endpoint)) log = requests window)"
proof (intro conjI impI)
  have "run_bodies evs Map.empty endpoint = Some window"
    using assms snd_run_log [of evs Map.empty] by simp
  then show "requests window \<le> maxRequests (limits endpoint)"
    using run_bodies_bounded [where ws = Map.empty and evs = evs] by simp
next
  assume srt: "sorted (map snd evs)"
  define T where "T = (if evs = [] then 0 else snd (hd evs))"
  have ge: "\<forall>t \<in> set (map snd evs). T \<le> t"
    using srt unfolding T_def by (cases evs) auto
  from run_log_inv [OF win_inv_empty srt ge assms(1)]
  obtain T' where "win_inv T' ws log" by auto
  from win_inv_ok [OF this, of endpoint] assms(2)
  show "admitted_in endpoint (resetTime window - windowMs (limits endpoint))
              (windowMs (limits endpoint)) log = requests window"
    by (simp add: win_ok_def)
qed

theorem window_never_exceeds_maxRequests_witness:
  "fst (run_log burst Map.empty) =
     [(General, 0), (General, 1), (Search, 1), (General, 2), (General, 3), (General, 4)] \<and>
   snd (run_log burst Map.empty) General = Some \<lparr>requests = 5, resetTime = 60000\<rparr> \<and>
   sorted (map snd burst) \<and>
   requests \<lparr>requests = 5, resetTime = 60000\<rparr> \<le> maxRequests (limits General) \<and>
   admitted_in General 0 60000 (fst (run_log burst Map.empty)) = 5"
proof -
  have run: "run_log burst Map.empty = (fst (run_log burst Map.empty), snd (run_log burst Map.empty))"
    by simp
  have log: "fst (run_log burst Map.empty) =
     [(General, 0), (General, 1), (Search, 1), (General, 2), (General, 3), (General, 4)]"
    by (simp add: burst_def waitForSlot_body_def)
  have win: "snd (run_log burst Map.empty) General = Some \<lparr>requests = 5, resetTime = 60000\<rparr>"
    by (simp add: burst_def waitForSlot_body_def eval_nat_numeral)
  have srt: "sorted (map snd burst)"
    by (simp add: burst_def)
  from window_never_exceeds_maxRequests [OF run win] srt log win show ?thesis
    by simp
qed

subsection \<open>Slots granted without delay\<close>

lemma body_grants:
  assumes "used e now ws < maxRequests (limits e)"
  shows "\<exists>ws'. waitForSlot_body e now ws = (Granted, ws') \<and> (\<forall>now'. used e now' ws' \<le> used e now ws + 1)"
  using assms
  by (auto simp: used_def waitForSlot_body_def Let_def split: option.splits)

lemma immediate_all_budget:
  "nows = [] \<or> used e (hd nows) ws + length nows \<le> maxRequests (limits e) \<Longrightarrow> immediate_all e nows ws"
proof (induction nows arbitrary: ws)
  case Nil
  then show ?case by simp
next
  case (Cons now nows)
  then have "used e now ws < maxRequests (limits e)" by simp
  from body_grants [OF this] obtain ws' where
    body: "waitForSlot_body e now ws = (Granted, ws')"
    and u: "\<And>now'. used e now' ws' \<le> used e now ws + 1" by blast
  have "nows = [] \<or> used e (hd nows) ws' + length nows \<le> maxRequests (limits e)"
    using u [of "hd nows"] Cons.prems by auto
  from Cons.IH [OF this] body show ?case by simp
qed

text \<open>
  C2. \<open>waitForSlot\<close> resolves at the time of the call, whatever the environment would
  provide for a sleep, (a) with a fresh window holding one request when there is no
  window or the window has expired, and (b) with the counter incremented when the window
  is live and below \<open>maxRequests\<close>. (c) Of a sequence of at most \<open>maxRequests\<close> calls
  of which the first meets no live window, every call resolves without delay; this holds
  for any times of the later calls, in particular when they all fall within the window
  the first one opens.
\<close>

theorem waitForSlot_immediate_when_budget:
  "((ws e = None \<or> (\<exists>w. ws e = Some w \<and> resetTime w \<le> now)) \<longrightarrow>
      waitForSlot e now wakes ws =
        Some (now, ws(e \<mapsto> \<lparr>requests = 1, resetTime = now + windowMs (limits e)\<rparr>))) \<and>
   (\<forall>w. ws e = Some w \<and> now < resetTime w \<and> requests w < maxRequests (limits e) \<longrightarrow>
      waitForSlot e now wakes ws = Some (now, ws(e \<mapsto> w\<lparr>requests := requests w + 1\<rparr>))) \<and>
   ((ws e = None \<or> (\<exists>w. ws e = Some w \<and> resetTime w \<le> hd nows)) \<and>
      length nows \<le> maxRequests (limits e) \<longrightarrow> immediate_all e nows ws)"
proof (intro conjI impI allI)
  assume "ws e = None \<or> (\<exists>w. ws e = Some w \<and> resetTime w \<le> now)"
  then show "waitForSlot e now wakes ws =
        Some (now, ws(e \<mapsto> \<lparr>requests = 1, resetTime = now + windowMs (limits e)\<rparr>))"
    by (auto simp: waitForSlot_body_def)
next
  fix w assume "ws e = Some w \<and> now < resetTime w \<and> requests w < maxRequests (limits e)"
  then show "waitForSlot e now wakes ws = Some (now, ws(e \<mapsto> w\<lparr>requests := requests w + 1\<rparr>))"
    by (auto simp: waitForSlot_body_def)
next
  assume a: "(ws e = None \<or> (\<exists>w. ws e = Some w \<and> resetTime w \<le> hd nows)) \<and>
      length nows \<le> maxRequests (limits e)"
  then have "used e (hd nows) ws = 0" by (auto simp: used_def)
  with a show "immediate_all e nows ws"
    using immediate_all_budget [of nows e ws] by simp
qed


theorem waitForSlot_immediate_when_budget_witness:
  "waitForSlot General 1000 [] Map.empty =
     Some (1000, [General \<mapsto> \<lparr>requests = 1, resetTime = 61000\<rparr>]) \<and>
   waitForSlot General 1000 [] [General \<mapsto> \<lparr>requests = 5, resetTime = 900\<rparr>] =
     Some (1000, [General \<mapsto> \<lparr>requests = 1, resetTime = 61000\<rparr>]) \<and>
   waitForSlot General 1000 [] [General \<mapsto> \<lparr>requests = 4, resetTime = 2000\<rparr>] =
     Some (1000, [General \<mapsto> \<lparr>requests = 5, resetTime = 2000\<rparr>]) \<and>
   length [1000, 1001, 1002, 1003, 60999 :: int] \<le> maxRequests (limits General) \<and>
   immediate_all General [1000, 1001, 1002, 1003, 60999] Map.empty"
  using waitForSlot_immediate_when_budget
      [of Map.empty General 1000 "[]" "[1000, 1001, 1002, 1003, 60999]"]
    waitForSlot_immediate_when_budget
      [of "[General \<mapsto> \<lparr>requests = 5, resetTime = 900\<rparr>]" General 1000 "[]" "[]"]
    waitForSlot_immediate_when_budget
      [of "[General \<mapsto> \<lparr>requests = 4, resetTime = 2000\<rparr>]" General 1000 "[]" "[]"]
  by (simp add: waitForSlot_body_def)

subsection \<open>An exhausted window\<close>

lemma waitForSlot_time:
  "waitForSlot e now wakes ws = Some (t, ws') \<Longrightarrow> now \<le> t"
proof (induction wakes arbitrary: now ws)
  case Nil
  then show ?case by (auto split: prod.splits slot_outcome.splits)
next
  case (Cons wk wakes)
  show ?case
  proof (cases "waitForSlot_body e now ws")
    case (Pair out ws1)
    show ?thesis
    proof (cases out)
      case Granted
      with Pair Cons.prems show ?thesis by simp
    next
      case (Suspend waitTime)
      with Pair have "0 \<le> waitTime"
        by (auto simp: waitForSlot_body_def Let_def split: option.splits if_splits)
      moreover have "now + waitTime + int (lateness wk) \<le> t"
        using Cons.IH [of "now + waitTime + int (lateness wk)" "run_bodies (others wk) ws1"]
          Cons.prems Pair Suspend by simp
      ultimately show ?thesis by simp
    qed
  qed
qed

text \<open>
  C3. A call that meets a live window with \<open>requests \<ge> maxRequests\<close> is not granted a
  slot: it leaves the map as it is and arms a timer for exactly the time left until
  \<open>resetTime\<close>. Without a wake-up it has not resolved; at the wake-up it runs
  \<open>waitForSlot\<close> again, at the time of the wake-up and on the map as the other callers have
  left it; whenever it resolves, it does so at \<open>resetTime\<close> or later; and when nobody
  else touched the map it resolves at the wake-up, with a fresh window.
\<close>

theorem waitForSlot_exhausted_waits:
  assumes "ws e = Some w" and "now < resetTime w" and "maxRequests (limits e) \<le> requests w"
  shows "waitForSlot_body e now ws = (Suspend (resetTime w - now), ws) \<and>
         waitForSlot e now [] ws = None \<and>
         waitForSlot e now (wk # wakes) ws =
           waitForSlot e (resetTime w + int (lateness wk)) wakes (run_bodies (others wk) ws) \<and>
         (\<forall>t ws'. waitForSlot e now wakes ws = Some (t, ws') \<longrightarrow> resetTime w \<le> t) \<and>
         (others wk = [] \<longrightarrow>
            waitForSlot e now (wk # wakes) ws =
              Some (resetTime w + int (lateness wk),
                    ws(e \<mapsto> \<lparr>requests = 1,
                      resetTime = resetTime w + int (lateness wk) + windowMs (limits e)\<rparr>)))"
proof -
  have body: "waitForSlot_body e now ws = (Suspend (resetTime w - now), ws)"
    using assms by (simp add: waitForSlot_body_def)
  have retry: "waitForSlot e now (wk # wakes) ws =
           waitForSlot e (resetTime w + int (lateness wk)) wakes (run_bodies (others wk) ws)"
    for wk wakes
    using body by simp
  have late: "resetTime w \<le> t" if "waitForSlot e now wakes ws = Some (t, ws')" for t ws'
  proof (cases wakes)
    case Nil
    with that body show ?thesis by simp
  next
    case (Cons wk' wakes')
    with that retry [of wk' wakes'] waitForSlot_time [of e "resetTime w + int (lateness wk')" wakes'
        "run_bodies (others wk') ws" t ws']
    show ?thesis by simp
  qed
  have alone: "waitForSlot e now (wk # wakes) ws =
              Some (resetTime w + int (lateness wk),
                    ws(e \<mapsto> \<lparr>requests = 1,
                      resetTime = resetTime w + int (lateness wk) + windowMs (limits e)\<rparr>))"
    if "others wk = []"
    using that assms by (simp add: waitForSlot_body_def)
  have none: "waitForSlot e now [] ws = None"
    using body by simp
  show ?thesis using body none retry [of wk wakes] late alone by blast
qed


theorem waitForSlot_exhausted_waits_witness:
  "[General \<mapsto> \<lparr>requests = 5, resetTime = 2000\<rparr>] General = Some \<lparr>requests = 5, resetTime = 2000\<rparr> \<and>
   (1000 :: int) < resetTime \<lparr>requests = 5, resetTime = 2000\<rparr> \<and>
   maxRequests (limits General) \<le> requests \<lparr>requests = 5, resetTime = 2000\<rparr> \<and>
   waitForSlot_body General 1000 [General \<mapsto> \<lparr>requests = 5, resetTime = 2000\<rparr>] =
     (Suspend 1000, [General \<mapsto> \<lparr>requests = 5, resetTime = 2000\<rparr>]) \<and>
   waitForSlot General 1000 [] [General \<mapsto> \<lparr>requests = 5, resetTime = 2000\<rparr>] = None \<and>
   waitForSlot General 1000 [\<lparr>lateness = 3, others = []\<rparr>]
       [General \<mapsto> \<lparr>requests = 5, resetTime = 2000\<rparr>] =
     Some (2003, [General \<mapsto> \<lparr>requests = 1, resetTime = 62003\<rparr>]) \<and>
   (2000 :: int) \<le> 2003 \<and>
   waitForSlot General 1000 [\<lparr>lateness = 3, others = rivals\<rparr>, \<lparr>lateness = 0, others = []\<rparr>]
       [General \<mapsto> \<lparr>requests = 5, resetTime = 2000\<rparr>] =
     waitForSlot General 2003 [\<lparr>lateness = 0, others = []\<rparr>]
       (run_bodies rivals [General \<mapsto> \<lparr>requests = 5, resetTime = 2000\<rparr>]) \<and>
   waitForSlot General 1000 [\<lparr>lateness = 3, others = rivals\<rparr>, \<lparr>lateness = 0, others = []\<rparr>]
       [General \<mapsto> \<lparr>requests = 5, resetTime = 2000\<rparr>] =
     Some (62001, [General \<mapsto> \<lparr>requests = 1, resetTime = 122001\<rparr>])"
proof -
  let ?ws = "[General \<mapsto> \<lparr>requests = 5, resetTime = 2000\<rparr>]"
  have pre: "?ws General = Some \<lparr>requests = 5, resetTime = 2000\<rparr>"
    "(1000 :: int) < resetTime \<lparr>requests = 5, resetTime = 2000\<rparr>"
    "maxRequests (limits General) \<le> requests \<lparr>requests = 5, resetTime = 2000\<rparr>"
    by simp_all
  note alone = waitForSlot_exhausted_waits
      [where ws = ?ws and e = General and w = "\<lparr>requests = 5, resetTime = 2000\<rparr>" and now = 1000
         and wk = "\<lparr>lateness = 3, others = []\<rparr>" and wakes = "[]", OF pre]
  note raced = waitForSlot_exhausted_waits
      [where ws = ?ws and e = General and w = "\<lparr>requests = 5, resetTime = 2000\<rparr>" and now = 1000
         and wk = "\<lparr>lateness = 3, others = rivals\<rparr>"
         and wakes = "[\<lparr>lateness = 0, others = []\<rparr>]", OF pre]
  have after: "run_bodies rivals ?ws = [General \<mapsto> \<lparr>requests = 5, resetTime = 62001\<rparr>]"
    by (simp add: rivals_def waitForSlot_body_def eval_nat_numeral)
  have again: "waitForSlot General 2003 [\<lparr>lateness = 0, others = []\<rparr>]
      [General \<mapsto> \<lparr>requests = 5, resetTime = 62001\<rparr>] =
     Some (62001, [General \<mapsto> \<lparr>requests = 1, resetTime = 122001\<rparr>])"
    by (simp add: waitForSlot_body_def)
  have susp: "waitForSlot_body General 1000 ?ws = (Suspend 1000, ?ws)"
    and none: "waitForSlot General 1000 [] ?ws = None"
    using alone by simp_all
  have solo: "waitForSlot General 1000 [\<lparr>lateness = 3, others = []\<rparr>] ?ws =
     Some (2003, [General \<mapsto> \<lparr>requests = 1, resetTime = 62003\<rparr>])"
    using conjunct2 [OF conjunct2 [OF conjunct2 [OF conjunct2 [OF alone]]]] by simp
  have retry: "waitForSlot General 1000
       [\<lparr>lateness = 3, others = rivals\<rparr>, \<lparr>lateness = 0, others = []\<rparr>] ?ws =
     waitForSlot General 2003 [\<lparr>lateness = 0, others = []\<rparr>] (run_bodies rivals ?ws)"
    using conjunct1 [OF conjunct2 [OF conjunct2 [OF raced]]] by simp
  have late: "waitForSlot General 1000
       [\<lparr>lateness = 3, others = rivals\<rparr>, \<lparr>lateness = 0, others = []\<rparr>] ?ws =
     Some (62001, [General \<mapsto> \<lparr>requests = 1, resetTime = 122001\<rparr>])"
    unfolding retry after by (rule again)
  have le: "(2000 :: int) \<le> 2003" by simp
  show ?thesis
    by (intro conjI) (fact pre susp none solo le retry late)+
qed


lemma waitForSlot_no_wake_needed:
  "waitForSlot endpoint now [] ws = Some r \<Longrightarrow> waitForSlot endpoint now wakes ws = Some r"
  by (auto split: prod.splits slot_outcome.splits)

section \<open>Properties of the request gateway\<close>

subsection \<open>Strings\<close>

lemma includes_str_iff: "includes_str s t \<longleftrightarrow> (\<exists>a b. s = a @ t @ b)"
proof (induction s)
  case Nil
  then show ?case by auto
next
  case (Cons c s)
  show ?case
  proof
    assume "includes_str (c # s) t"
    then consider "prefix t (c # s)" | "includes_str s t" by auto
    then show "\<exists>a b. c # s = a @ t @ b"
    proof cases
      case 1
      then obtain b where "c # s = t @ b" by (auto simp: prefix_def)
      then have "c # s = [] @ t @ b" by simp
      then show ?thesis by blast
    next
      case 2
      with Cons.IH obtain a b where "s = a @ t @ b" by blast
      then have "c # s = (c # a) @ t @ b" by simp
      then show ?thesis by blast
    qed
  next
    assume "\<exists>a b. c # s = a @ t @ b"
    then obtain a b where ab: "c # s = a @ t @ b" by blast
    show "includes_str (c # s) t"
    proof (cases a)
      case Nil
      with ab have "prefix t (c # s)" by (simp add: prefix_def)
      then show ?thesis by simp
    next
      case (Cons x a')
      with ab have "s = a' @ t @ b" by simp
      with Cons.IH show ?thesis by auto
    qed
  qed
qed

lemma digit_char_inj:
  assumes "a < 16" and "b < 16" and "digit_char a = digit_char b"
  shows "a = b"
proof -
  have "distinct ''0123456789abcdef''" by simp
  moreover have "length ''0123456789abcdef'' = 16" by simp
  ultimately show ?thesis
    using assms nth_eq_iff_index_eq [of "''0123456789abcdef''" a b]
    unfolding digit_char_def by metis
qed

lemma decimal_not_Nil: "decimal n \<noteq> []"
  by (subst decimal.simps) simp

lemma decimal_inj: "decimal m = decimal n \<Longrightarrow> m = n"
proof (induction m arbitrary: n rule: decimal.induct)
  case (1 m)
  show ?case
  proof (cases "m < 10")
    case small_m: True
    show ?thesis
    proof (cases "n < 10")
      case True
      with small_m "1.prems" have "digit_char m = digit_char n"
        by (simp add: decimal.simps)
      with small_m True show ?thesis by (intro digit_char_inj) simp_all
    next
      case False
      with small_m "1.prems" decimal_not_Nil [of "n div 10"] show ?thesis
        by (simp add: decimal.simps [of m] decimal.simps [of n])
    qed
  next
    case big_m: False
    show ?thesis
    proof (cases "n < 10")
      case True
      with big_m "1.prems" decimal_not_Nil [of "m div 10"] show ?thesis
        by (simp add: decimal.simps [of m] decimal.simps [of n])
    next
      case False
      with big_m "1.prems" have eq: "decimal (m div 10) = decimal (n div 10)"
        and d: "digit_char (m mod 10) = digit_char (n mod 10)"
        by (simp_all add: decimal.simps [of m] decimal.simps [of n])
      from "1.IH" [OF big_m eq] have "m div 10 = n div 10" .
      moreover from d have "m mod 10 = n mod 10" by (intro digit_char_inj) simp_all
      ultimately show ?thesis by (metis div_mult_mod_eq)
    qed
  qed
qed

subsection \<open>What \<open>makeRequest\<close> sends and returns\<close>

lemma makeRequest_sent:
  assumes "makeRequest cfg fetch endpoint options now wakes ws = Some c"
  shows "sent c =
           \<lparr>req_url = baseUrl cfg @ endpoint,
            req_method = method' options,
            req_headers =
              [''Authorization'' \<mapsto> ''Bearer '' @ apiToken cfg,
               ''Content-Type'' \<mapsto> ''application/json''] ++ headers options,
            req_body = body options\<rparr>"
  using assms by (auto simp: makeRequest_def Let_def split: option.splits)

lemma makeRequest_result:
  assumes "makeRequest cfg fetch endpoint options now wakes ws = Some c"
  shows "result c =
           (case fetch (sent c) of
              Rejected reason \<Rightarrow> Thrown (FetchRejected reason)
            | Responded response \<Rightarrow>
                if \<not> ok response then
                  if status response = 429
                  then Thrown (CapacitiesAPIError ''RATE_LIMIT_EXCEEDED'' ''Rate limit exceeded'')
                  else if status response = 401
                  then Thrown (CapacitiesAPIError ''AUTHENTICATION_FAILED'' ''Invalid API token'')
                  else Thrown (CapacitiesAPIError ''API_ERROR''
                         (''API error: '' @ decimal (status response)))
                else Returned (normalize_response response))"
  using assms by (auto simp: makeRequest_def Let_def split: option.splits)

lemma makeRequest_limiter:
  assumes "makeRequest cfg fetch endpoint options now wakes ws = Some c"
  shows "\<exists>t. waitForSlot (getEndpointType endpoint) now wakes ws = Some (t, limiter c)"
  using assms by (auto simp: makeRequest_def Let_def split: option.splits)

lemma makeRequest_fresh:
  "makeRequest cfg fetch endpoint options now wakes Map.empty \<noteq> None"
  by (simp add: makeRequest_def Let_def waitForSlot_body_def)

lemma makeRequest_fresh_the:
  "makeRequest cfg fetch endpoint options now wakes Map.empty =
     Some (the (makeRequest cfg fetch endpoint options now wakes Map.empty))"
  using makeRequest_fresh [of cfg fetch endpoint options now wakes] by auto

lemma upstream_answers: "upstream response request = Responded response"
  by (simp add: upstream_def)

text \<open>
  C4. Whatever the request and the rest of the response, \<open>makeRequest\<close> maps the status
  of the response to one result: 429 to the error \<open>RATE_LIMIT_EXCEEDED\<close>, 401 to
  \<open>AUTHENTICATION_FAILED\<close>, every other status from 400 to 599 to \<open>API_ERROR\<close> with
  the message \<open>API error: \<close> followed by the decimal digits of the status (which no other
  status shares), and a status from 200 to 299 to no error but to what the second half of
  the method makes of the response.
\<close>

theorem status_classification:
  assumes "makeRequest cfg fetch endpoint options now wakes ws = Some c"
    and "fetch (sent c) = Responded response"
  shows "(status response = 429 \<longrightarrow>
            result c = Thrown (CapacitiesAPIError ''RATE_LIMIT_EXCEEDED'' ''Rate limit exceeded'')) \<and>
         (status response = 401 \<longrightarrow>
            result c = Thrown (CapacitiesAPIError ''AUTHENTICATION_FAILED'' ''Invalid API token'')) \<and>
         (400 \<le> status response \<and> status response \<le> 599 \<and>
          status response \<noteq> 429 \<and> status response \<noteq> 401 \<longrightarrow>
            result c = Thrown (CapacitiesAPIError ''API_ERROR''
                         (''API error: '' @ decimal (status response)))) \<and>
         (200 \<le> status response \<and> status response \<le> 299 \<longrightarrow>
            result c = Returned (normalize_response response)) \<and>
         (\<forall>s. decimal s = decimal (status response) \<longrightarrow> s = status response)"
  using makeRequest_result [OF assms(1)] assms(2) decimal_inj
  by (simp add: ok_def)

theorem status_classification_witness:
  "makeRequest demo_config (upstream (reply 429)) ''/spaces'' no_options 0 [] Map.empty \<noteq> None \<and>
   result (the (makeRequest demo_config (upstream (reply 429)) ''/spaces'' no_options 0 [] Map.empty)) =
     Thrown (CapacitiesAPIError ''RATE_LIMIT_EXCEEDED'' ''Rate limit exceeded'') \<and>
   result (the (makeRequest demo_config (upstream (reply 401)) ''/spaces'' no_options 0 [] Map.empty)) =
     Thrown (CapacitiesAPIError ''AUTHENTICATION_FAILED'' ''Invalid API token'') \<and>
   result (the (makeRequest demo_config (upstream (reply 503)) ''/spaces'' no_options 0 [] Map.empty)) =
     Thrown (CapacitiesAPIError ''API_ERROR'' ''API error: 503'') \<and>
   result (the (makeRequest demo_config (upstream (reply 404)) ''/spaces'' no_options 0 [] Map.empty)) =
     Thrown (CapacitiesAPIError ''API_ERROR'' ''API error: 404'') \<and>
   result (the (makeRequest demo_config (upstream (reply 200)) ''/spaces'' no_options 0 [] Map.empty)) =
     Returned (JObj [(''spaces'', JArr [])])"
proof -
  have d: "decimal 503 = ''503''" "decimal 404 = ''404''"
    by (simp_all add: decimal.simps digit_char_def)
  have n: "normalize_response (reply 200) = JObj [(''spaces'', JArr [])]"
    by (simp add: normalize_response_def reply_def)
  have s: "status (reply k) = k" for k by (simp add: reply_def)
  note rate = status_classification
      [where cfg = demo_config and fetch = "upstream (reply 429)" and endpoint = "''/spaces''"
         and options = no_options and now = 0 and wakes = "[]" and ws = Map.empty
         and response = "reply 429",
       OF makeRequest_fresh_the upstream_answers]
  note auth = status_classification
      [where cfg = demo_config and fetch = "upstream (reply 401)" and endpoint = "''/spaces''"
         and options = no_options and now = 0 and wakes = "[]" and ws = Map.empty
         and response = "reply 401",
       OF makeRequest_fresh_the upstream_answers]
  note unavailable = status_classification
      [where cfg = demo_config and fetch = "upstream (reply 503)" and endpoint = "''/spaces''"
         and options = no_options and now = 0 and wakes = "[]" and ws = Map.empty
         and response = "reply 503",
       OF makeRequest_fresh_the upstream_answers]
  note missing = status_classification
      [where cfg = demo_config and fetch = "upstream (reply 404)" and endpoint = "''/spaces''"
         and options = no_options and now = 0 and wakes = "[]" and ws = Map.empty
         and response = "reply 404",
       OF makeRequest_fresh_the upstream_answers]
  note fine = status_classification
      [where cfg = demo_config and fetch = "upstream (reply 200)" and endpoint = "''/spaces''"
         and options = no_options and now = 0 and wakes = "[]" and ws = Map.empty
         and response = "reply 200",
       OF makeRequest_fresh_the upstream_answers]
  show ?thesis
    using rate auth unavailable missing fine
      makeRequest_fresh [of demo_config "upstream (reply 429)" "''/spaces''" no_options 0 "[]"]
    by (simp add: s d n)
qed



subsection \<open>The endpoint type of a path\<close>

lemma body_other_window:
  "e \<noteq> endpoint \<Longrightarrow> snd (waitForSlot_body endpoint now ws) e = ws e"
  by (simp add: waitForSlot_body_def Let_def split: option.splits)

lemma waitForSlot_no_wake:
  "waitForSlot endpoint now [] ws = Some (t, ws') \<Longrightarrow> ws' = snd (waitForSlot_body endpoint now ws)"
  by (auto split: prod.splits slot_outcome.splits)

text \<open>
  C6. \<open>getEndpointType\<close> gives every path one of the three endpoint types: \<open>Search\<close>
  to every path that contains \<open>/search\<close>, \<open>Weblink\<close> to every path that contains
  \<open>/save-weblink\<close> and not \<open>/search\<close>, and \<open>General\<close> to the others. A request for
  a path that contains \<open>/search\<close> and is granted its slot at once draws on the window of
  \<open>Search\<close> and leaves the other two windows as they are.
\<close>

theorem getEndpointType_total:
  "getEndpointType path \<in> {Search, Weblink, General} \<and>
   ((\<exists>a b. path = a @ ''/search'' @ b) \<longrightarrow> getEndpointType path = Search) \<and>
   (\<not> (\<exists>a b. path = a @ ''/search'' @ b) \<and> (\<exists>a b. path = a @ ''/save-weblink'' @ b) \<longrightarrow>
      getEndpointType path = Weblink) \<and>
   (\<not> (\<exists>a b. path = a @ ''/search'' @ b) \<and> \<not> (\<exists>a b. path = a @ ''/save-weblink'' @ b) \<longrightarrow>
      getEndpointType path = General) \<and>
   ((\<exists>a b. path = a @ ''/search'' @ b) \<and>
    makeRequest cfg fetch path options now [] ws = Some c \<longrightarrow>
      limiter c = snd (waitForSlot_body Search now ws) \<and>
      limiter c Weblink = ws Weblink \<and> limiter c General = ws General)"
proof -
  have total: "getEndpointType path \<in> {Search, Weblink, General}"
    by (cases "getEndpointType path") simp_all
  have search: "getEndpointType path = Search" if "\<exists>a b. path = a @ ''/search'' @ b"
    using that by (simp add: getEndpointType.simps includes_str_iff del: append_assoc)
  have weblink: "getEndpointType path = Weblink"
    if "\<not> (\<exists>a b. path = a @ ''/search'' @ b)" and "\<exists>a b. path = a @ ''/save-weblink'' @ b"
    using that by (simp add: getEndpointType.simps includes_str_iff)
  have general: "getEndpointType path = General"
    if "\<not> (\<exists>a b. path = a @ ''/search'' @ b)" and "\<not> (\<exists>a b. path = a @ ''/save-weblink'' @ b)"
    using that by (simp add: getEndpointType.simps includes_str_iff)
  have route: "limiter c = snd (waitForSlot_body Search now ws) \<and>
      limiter c Weblink = ws Weblink \<and> limiter c General = ws General"
    if "\<exists>a b. path = a @ ''/search'' @ b"
      and "makeRequest cfg fetch path options now [] ws = Some c"
  proof -
    from makeRequest_limiter [OF that(2)] search [OF that(1)]
    obtain t where "waitForSlot Search now [] ws = Some (t, limiter c)" by auto
    from waitForSlot_no_wake [OF this] show ?thesis
      by (simp add: body_other_window)
  qed
  show ?thesis using total search weblink general route by blast
qed

theorem getEndpointType_total_witness:
  "(\<exists>a b. ''/space-info?spaceid=/search'' = a @ ''/search'' @ b) \<and>
   getEndpointType ''/space-info?spaceid=/search'' = Search \<and>
   \<not> (\<exists>a b. ''/v1/save-weblink'' = a @ ''/search'' @ b) \<and>
   (\<exists>a b. ''/v1/save-weblink'' = a @ ''/save-weblink'' @ b) \<and>
   getEndpointType ''/v1/save-weblink'' = Weblink \<and>
   \<not> (\<exists>a b. ''/spaces'' = a @ ''/search'' @ b) \<and>
   \<not> (\<exists>a b. ''/spaces'' = a @ ''/save-weblink'' @ b) \<and>
   getEndpointType ''/spaces'' = General \<and>
   makeRequest demo_config (upstream (reply 200)) ''/space-info?spaceid=/search'' no_options 7 []
     Map.empty \<noteq> None \<and>
   limiter (the (makeRequest demo_config (upstream (reply 200)) ''/space-info?spaceid=/search''
     no_options 7 [] Map.empty)) Search = Some \<lparr>requests = 1, resetTime = 60007\<rparr> \<and>
   limiter (the (makeRequest demo_config (upstream (reply 200)) ''/space-info?spaceid=/search''
     no_options 7 [] Map.empty)) General = None"
proof -
  have s: "\<exists>a b. ''/space-info?spaceid=/search'' = a @ ''/search'' @ b"
    unfolding includes_str_iff [symmetric] by simp
  have w: "\<not> (\<exists>a b. ''/v1/save-weblink'' = a @ ''/search'' @ b)"
    "\<exists>a b. ''/v1/save-weblink'' = a @ ''/save-weblink'' @ b"
    unfolding includes_str_iff [symmetric] by simp_all
  have g: "\<not> (\<exists>a b. ''/spaces'' = a @ ''/search'' @ b)"
    "\<not> (\<exists>a b. ''/spaces'' = a @ ''/save-weblink'' @ b)"
    unfolding includes_str_iff [symmetric] by simp_all
  note search = getEndpointType_total
      [where path = "''/space-info?spaceid=/search''" and cfg = demo_config
         and fetch = "upstream (reply 200)" and options = no_options and now = 7 and ws = Map.empty
         and c = "the (makeRequest demo_config (upstream (reply 200)) ''/space-info?spaceid=/search''
           no_options 7 [] Map.empty)"]
  note weblink = getEndpointType_total [where path = "''/v1/save-weblink''"]
  note general = getEndpointType_total [where path = "''/spaces''"]
  have fresh: "makeRequest demo_config (upstream (reply 200)) ''/space-info?spaceid=/search''
      no_options 7 [] Map.empty =
     Some (the (makeRequest demo_config (upstream (reply 200)) ''/space-info?spaceid=/search''
      no_options 7 [] Map.empty))"
    by (rule makeRequest_fresh_the)
  have lim: "limiter (the (makeRequest demo_config (upstream (reply 200)) ''/space-info?spaceid=/search''
     no_options 7 [] Map.empty)) = snd (waitForSlot_body Search 7 Map.empty)"
    using search s fresh by blast
  have e1: "getEndpointType ''/space-info?spaceid=/search'' = Search"
    using search s by blast
  have e2: "getEndpointType ''/v1/save-weblink'' = Weblink"
    using weblink w by blast
  have e3: "getEndpointType ''/spaces'' = General"
    using general g by blast
  have ne: "makeRequest demo_config (upstream (reply 200)) ''/space-info?spaceid=/search''
      no_options 7 [] Map.empty \<noteq> None"
    by (rule makeRequest_fresh)
  have l1: "limiter (the (makeRequest demo_config (upstream (reply 200)) ''/space-info?spaceid=/search''
     no_options 7 [] Map.empty)) Search = Some \<lparr>requests = 1, resetTime = 60007\<rparr>"
    and l2: "limiter (the (makeRequest demo_config (upstream (reply 200)) ''/space-info?spaceid=/search''
     no_options 7 [] Map.empty)) General = None"
    by (simp_all add: lim waitForSlot_body_def)
  show ?thesis
    by (intro conjI) (fact s w g e1 e2 e3 ne l1 l2)+
qed

subsection \<open>The bearer token\<close>

lemma makeRequest_header:
  assumes "makeRequest cfg fetch endpoint options now wakes ws = Some c"
    and "headers options ''Authorization'' = None"
  shows "req_headers (sent c) ''Authorization'' = Some (''Bearer '' @ apiToken cfg)"
  using assms(2) by (simp add: makeRequest_sent [OF assms(1)] map_add_def)

lemma sent_unwrap: "sent (unwrap name c) = sent c"
  by (simp add: unwrap_def)

lemma invoke_makeRequest:
  assumes "invoke cfg fetch call now wakes ws = Some (err, request)"
  shows "\<exists>endpoint ini c.
           makeRequest cfg fetch endpoint ini now wakes ws = Some c \<and> request = sent c \<and>
           headers ini = Map.empty \<and> (err = failure c \<or> (\<exists>name. err = failure (unwrap name c)))"
proof (cases call)
  case GetSpaces
  with assms show ?thesis
    by (fastforce simp: getSpaces_def sent_unwrap no_options_def)
next
  case (GetSpaceInfo space)
  with assms show ?thesis
    by (fastforce simp: getSpaceInfo_def no_options_def)
next
  case (SearchContent options)
  with assms show ?thesis
    by (fastforce simp: searchContent_def sent_unwrap)
next
  case (SaveWeblink options)
  with assms show ?thesis
    by (fastforce simp: saveWeblink_def)
next
  case (SaveToDailyNote options)
  with assms show ?thesis
    by (fastforce simp: saveToDailyNote_def)
qed

lemma invoke_header:
  assumes "invoke cfg fetch call now wakes ws = Some (err, request)"
  shows "req_headers request ''Authorization'' = Some (''Bearer '' @ apiToken cfg)"
proof -
  from invoke_makeRequest [OF assms] obtain endpoint ini c where
    "makeRequest cfg fetch endpoint ini now wakes ws = Some c" and "request = sent c"
    and "headers ini = Map.empty" by blast
  then show ?thesis using makeRequest_header [of cfg fetch endpoint ini now wakes ws c] by simp
qed

lemma makeRequest_api_error:
  assumes "makeRequest cfg fetch endpoint options now wakes ws = Some c"
    and "result c = Thrown (CapacitiesAPIError code msg)"
  shows "\<exists>response. fetch (sent c) = Responded response \<and> msg = status_message (status response)"
proof (cases "fetch (sent c)")
  case (Rejected reason)
  with makeRequest_result [OF assms(1)] assms(2) show ?thesis by simp
next
  case (Responded response)
  with makeRequest_result [OF assms(1)] assms(2)
  have "msg = status_message (status response)"
    by (simp add: status_message_def split: if_splits)
  with Responded show ?thesis by simp
qed

lemma unwrap_api_error:
  assumes "result (unwrap name c) = Thrown (CapacitiesAPIError code msg)"
  shows "result c = Thrown (CapacitiesAPIError code msg)"
proof (cases "result c")
  case (Returned v)
  with assms show ?thesis by (cases v) (simp_all add: unwrap_def)
next
  case (Thrown e)
  with assms show ?thesis by (simp add: unwrap_def)
qed

lemma failure_Some: "failure c = Some e \<longleftrightarrow> result c = Thrown e"
  by (simp add: failure_def split: outcome.splits)

lemma invoke_api_error:
  assumes "invoke cfg fetch call now wakes ws = Some (Some (CapacitiesAPIError code msg), request)"
  shows "\<exists>response. fetch request = Responded response \<and> msg = status_message (status response)"
proof -
  from invoke_makeRequest [OF assms] obtain endpoint ini c where
    c: "makeRequest cfg fetch endpoint ini now wakes ws = Some c" and r: "request = sent c"
    and e: "Some (CapacitiesAPIError code msg) = failure c \<or>
         (\<exists>name. Some (CapacitiesAPIError code msg) = failure (unwrap name c))" by blast
  from e have "result c = Thrown (CapacitiesAPIError code msg)"
    using unwrap_api_error failure_Some by metis
  from makeRequest_api_error [OF c this] r show ?thesis by simp
qed

lemma makeRequest_only_through_fetch:
  assumes "makeRequest (cfg\<lparr>apiToken := tokenA\<rparr>) fetch endpoint ini now wakes ws = Some cA"
    and "makeRequest (cfg\<lparr>apiToken := tokenB\<rparr>) fetch endpoint ini now wakes ws = Some cB"
    and "fetch (sent cA) = fetch (sent cB)"
  shows "result cA = result cB"
  unfolding makeRequest_result [OF assms(1)] makeRequest_result [OF assms(2)] assms(3) ..

lemma failure_cong: "result cA = result cB \<Longrightarrow> failure cA = failure cB"
  by (simp add: failure_def)

lemma failure_unwrap_cong:
  "result cA = result cB \<Longrightarrow> failure (unwrap name cA) = failure (unwrap name cB)"
  by (simp add: failure_def unwrap_def)

lemma invoke_only_through_fetch:
  assumes "invoke (cfg\<lparr>apiToken := tokenA\<rparr>) fetch call now wakes ws = Some (errA, requestA)"
    and "invoke (cfg\<lparr>apiToken := tokenB\<rparr>) fetch call now wakes ws = Some (errB, requestB)"
    and "fetch requestA = fetch requestB"
  shows "errA = errB"
proof (cases call)
  case GetSpaces
  from assms(1) GetSpaces obtain cA where
    a: "makeRequest (cfg\<lparr>apiToken := tokenA\<rparr>) fetch ''/spaces'' no_options now wakes ws = Some cA"
    and ra: "requestA = sent cA" and ea: "errA = failure (unwrap ''spaces'' cA)"
    by (auto simp: getSpaces_def sent_unwrap)
  from assms(2) GetSpaces obtain cB where
    b: "makeRequest (cfg\<lparr>apiToken := tokenB\<rparr>) fetch ''/spaces'' no_options now wakes ws = Some cB"
    and rb: "requestB = sent cB" and eb: "errB = failure (unwrap ''spaces'' cB)"
    by (auto simp: getSpaces_def sent_unwrap)
  from assms(3) ra rb have "result cA = result cB"
    by (intro makeRequest_only_through_fetch [OF a b]) simp
  then show ?thesis unfolding ea eb by (rule failure_unwrap_cong)
next
  case (GetSpaceInfo space)
  from assms(1) GetSpaceInfo obtain cA where
    a: "makeRequest (cfg\<lparr>apiToken := tokenA\<rparr>) fetch (''/space-info?spaceid='' @ space) no_options
          now wakes ws = Some cA"
    and ra: "requestA = sent cA" and ea: "errA = failure cA"
    by (auto simp: getSpaceInfo_def)
  from assms(2) GetSpaceInfo obtain cB where
    b: "makeRequest (cfg\<lparr>apiToken := tokenB\<rparr>) fetch (''/space-info?spaceid='' @ space) no_options
          now wakes ws = Some cB"
    and rb: "requestB = sent cB" and eb: "errB = failure cB"
    by (auto simp: getSpaceInfo_def)
  from assms(3) ra rb have "result cA = result cB"
    by (intro makeRequest_only_through_fetch [OF a b]) simp
  then show ?thesis unfolding ea eb by (rule failure_cong)
next
  case (SearchContent options)
  from assms(1) SearchContent obtain cA ini where
    a: "makeRequest (cfg\<lparr>apiToken := tokenA\<rparr>) fetch ''/search'' ini now wakes ws = Some cA"
    and ra: "requestA = sent cA" and ea: "errA = failure (unwrap ''results'' cA)"
    and ini: "searchContent (cfg\<lparr>apiToken := tokenB\<rparr>) fetch options now wakes ws =
        map_option (unwrap ''results'')
          (makeRequest (cfg\<lparr>apiToken := tokenB\<rparr>) fetch ''/search'' ini now wakes ws)"
    by (auto simp: searchContent_def sent_unwrap)
  from assms(2) SearchContent ini obtain cB where
    b: "makeRequest (cfg\<lparr>apiToken := tokenB\<rparr>) fetch ''/search'' ini now wakes ws = Some cB"
    and rb: "requestB = sent cB" and eb: "errB = failure (unwrap ''results'' cB)"
    by (auto simp: sent_unwrap)
  from assms(3) ra rb have "result cA = result cB"
    by (intro makeRequest_only_through_fetch [OF a b]) simp
  then show ?thesis unfolding ea eb by (rule failure_unwrap_cong)
next
  case (SaveWeblink options)
  from assms(1) SaveWeblink obtain cA ini where
    a: "makeRequest (cfg\<lparr>apiToken := tokenA\<rparr>) fetch ''/save-weblink'' ini now wakes ws = Some cA"
    and ra: "requestA = sent cA" and ea: "errA = failure cA"
    and ini: "saveWeblink (cfg\<lparr>apiToken := tokenB\<rparr>) fetch options now wakes ws =
        makeRequest (cfg\<lparr>apiToken := tokenB\<rparr>) fetch ''/save-weblink'' ini now wakes ws"
    by (auto simp: saveWeblink_def)
  from assms(2) SaveWeblink ini obtain cB where
    b: "makeRequest (cfg\<lparr>apiToken := tokenB\<rparr>) fetch ''/save-weblink'' ini now wakes ws = Some cB"
    and rb: "requestB = sent cB" and eb: "errB = failure cB"
    by auto
  from assms(3) ra rb have "result cA = result cB"
    by (intro makeRequest_only_through_fetch [OF a b]) simp
  then show ?thesis unfolding ea eb by (rule failure_cong)
next
  case (SaveToDailyNote options)
  from assms(1) SaveToDailyNote obtain cA ini where
    a: "makeRequest (cfg\<lparr>apiToken := tokenA\<rparr>) fetch ''/save-to-daily-note'' ini now wakes ws = Some cA"
    and ra: "requestA = sent cA" and ea: "errA = failure cA"
    and ini: "saveToDailyNote (cfg\<lparr>apiToken := tokenB\<rparr>) fetch options now wakes ws =
        makeRequest (cfg\<lparr>apiToken := tokenB\<rparr>) fetch ''/save-to-daily-note'' ini now wakes ws"
    by (auto simp: saveToDailyNote_def)
  from assms(2) SaveToDailyNote ini obtain cB where
    b: "makeRequest (cfg\<lparr>apiToken := tokenB\<rparr>) fetch ''/save-to-daily-note'' ini now wakes ws = Some cB"
    and rb: "requestB = sent cB" and eb: "errB = failure cB"
    by auto
  from assms(3) ra rb have "result cA = result cB"
    by (intro makeRequest_only_through_fetch [OF a b]) simp
  then show ?thesis unfolding ea eb by (rule failure_cong)
qed

lemma invoke_settles_alike:
  "invoke (cfg\<lparr>apiToken := tokenA\<rparr>) fetch call now wakes ws = None \<longleftrightarrow>
   invoke (cfg\<lparr>apiToken := tokenB\<rparr>) fetch call now wakes ws = None"
  by (cases call)
     (simp_all add: getSpaces_def getSpaceInfo_def searchContent_def saveWeblink_def
        saveToDailyNote_def makeRequest_def Let_def split: option.splits)

lemma getSpaces_error_fresh:
  "fst (the (invoke cfg fetch GetSpaces now wakes Map.empty)) =
     failure (unwrap ''spaces'' (the (makeRequest cfg fetch ''/spaces'' no_options now wakes Map.empty)))"
  using makeRequest_fresh [of cfg fetch "''/spaces''" no_options now wakes]
  by (auto simp: getSpaces_def)

lemma rejection_passes_through:
  assumes "makeRequest cfg fetch endpoint ini now wakes ws = Some c"
    and "fetch (sent c) = Rejected reason"
  shows "failure (unwrap name c) = Some (FetchRejected reason) \<and> failure c = Some (FetchRejected reason)"
  using makeRequest_result [OF assms(1)] assms(2)
  by (simp add: failure_def unwrap_def)

lemma runtime_fetch_rejects:
  assumes "makeRequest cfg (runtime_fetch response) endpoint ini now wakes ws = Some c"
    and "headers ini ''Authorization'' = None" and "line_feed \<in> set (apiToken cfg)"
  shows \<open>runtime_fetch response (sent c) =
     Rejected (''Headers.append: "Bearer '' @ apiToken cfg @ ''" is an invalid header value.'')\<close>
  using makeRequest_header [OF assms(1,2)] assms(3)
  by (simp add: runtime_fetch_def)

text \<open>
  C7. Required: every request carries the header \<open>Authorization: Bearer \<close> followed by
  the token, and no error message depends on the token. The first half holds
  (\<open>invoke_header\<close>), the message of a \<open>CapacitiesAPIError\<close> is determined by the status
  of the response (\<open>invoke_api_error\<close>), and two runs that differ in the token alone end
  with the same error whenever \<open>fetch\<close> answers their requests alike
  (\<open>invoke_only_through_fetch\<close>). But \<open>makeRequest\<close> does not catch what \<open>fetch\<close>
  rejects with and nothing checks the token beyond its being non-empty, so the second
  half fails: with the \<open>fetch\<close> of the runtime, \<open>getSpaces\<close> of a client whose token
  contains a line feed ends with an error whose message contains the token, and another
  such token gives another message.
\<close>

theorem token_exposed_by_fetch_rejection:
  \<open>fst (the (invoke (demo_config\<lparr>apiToken := split_token\<rparr>) (runtime_fetch (reply 200)) GetSpaces
      0 [] Map.empty)) =
     Some (FetchRejected
       (''Headers.append: "Bearer '' @ split_token @ ''" is an invalid header value.'')) \<and>
   includes_str (''Headers.append: "Bearer '' @ split_token @ ''" is an invalid header value.'')
     split_token \<and>
   fst (the (invoke (demo_config\<lparr>apiToken := other_split_token\<rparr>) (runtime_fetch (reply 200)) GetSpaces
      0 [] Map.empty)) =
     Some (FetchRejected
       (''Headers.append: "Bearer '' @ other_split_token @ ''" is an invalid header value.'')) \<and>
   fst (the (invoke (demo_config\<lparr>apiToken := split_token\<rparr>) (runtime_fetch (reply 200)) GetSpaces
      0 [] Map.empty)) \<noteq>
   fst (the (invoke (demo_config\<lparr>apiToken := other_split_token\<rparr>) (runtime_fetch (reply 200)) GetSpaces
      0 [] Map.empty))\<close>
proof -
  have run: \<open>fst (the (invoke (demo_config\<lparr>apiToken := token\<rparr>) (runtime_fetch (reply 200)) GetSpaces
      0 [] Map.empty)) =
     Some (FetchRejected (''Headers.append: "Bearer '' @ token @ ''" is an invalid header value.''))\<close>
    if lf: "line_feed \<in> set token" for token
  proof -
    let ?cfg = "demo_config\<lparr>apiToken := token\<rparr>"
    have c: "makeRequest ?cfg (runtime_fetch (reply 200)) ''/spaces'' no_options 0 [] Map.empty =
        Some (the (makeRequest ?cfg (runtime_fetch (reply 200)) ''/spaces'' no_options 0 [] Map.empty))"
      by (rule makeRequest_fresh_the)
    have \<open>runtime_fetch (reply 200)
        (sent (the (makeRequest ?cfg (runtime_fetch (reply 200)) ''/spaces'' no_options 0 [] Map.empty))) =
      Rejected (''Headers.append: "Bearer '' @ apiToken ?cfg @ ''" is an invalid header value.'')\<close>
      using lf by (intro runtime_fetch_rejects [OF c]) (simp_all add: no_options_def)
    from rejection_passes_through [OF c this, of "''spaces''"] show ?thesis
      unfolding getSpaces_error_fresh by simp
  qed
  have lf: "line_feed \<in> set split_token" "line_feed \<in> set other_split_token"
    by (simp_all add: split_token_def other_split_token_def)
  have inc: \<open>includes_str (''Headers.append: "Bearer '' @ split_token @ ''" is an invalid header value.'')
     split_token\<close>
    unfolding includes_str_iff by blast
  have ne: "split_token \<noteq> other_split_token"
    by (simp add: split_token_def other_split_token_def)
  have diff: "fst (the (invoke (demo_config\<lparr>apiToken := split_token\<rparr>) (runtime_fetch (reply 200)) GetSpaces
      0 [] Map.empty)) \<noteq>
   fst (the (invoke (demo_config\<lparr>apiToken := other_split_token\<rparr>) (runtime_fetch (reply 200)) GetSpaces
      0 [] Map.empty))"
    unfolding run [OF lf(1)] run [OF lf(2)] using ne by simp
  show ?thesis
    by (intro conjI) (fact run [OF lf(1)] run [OF lf(2)] inc diff)+
qed

section \<open>Properties of the public methods\<close>

lemma searchContent_fresh_ne:
  "searchContent cfg fetch options now wakes Map.empty \<noteq> None"
  using makeRequest_fresh by (simp add: searchContent_def)

lemma searchContent_fresh:
  "searchContent cfg fetch options now wakes Map.empty =
     Some (the (searchContent cfg fetch options now wakes Map.empty))"
  using searchContent_fresh_ne [of cfg fetch options now wakes] by auto

lemma getSpaces_fresh_ne: "getSpaces cfg fetch now wakes Map.empty \<noteq> None"
  using makeRequest_fresh by (simp add: getSpaces_def)

lemma getSpaces_fresh:
  "getSpaces cfg fetch now wakes Map.empty = Some (the (getSpaces cfg fetch now wakes Map.empty))"
  using getSpaces_fresh_ne [of cfg fetch now wakes] by auto

lemma saveWeblink_fresh_ne:
  "saveWeblink cfg fetch options now wakes Map.empty \<noteq> None"
  using makeRequest_fresh by (simp add: saveWeblink_def)

lemma saveWeblink_fresh:
  "saveWeblink cfg fetch options now wakes Map.empty =
     Some (the (saveWeblink cfg fetch options now wakes Map.empty))"
  using saveWeblink_fresh_ne [of cfg fetch options now wakes] by auto

lemma searchContent_request:
  assumes "searchContent cfg fetch options now wakes ws = Some c"
  shows "sent c =
           \<lparr>req_url = baseUrl cfg @ ''/search'',
            req_method = Some ''POST'',
            req_headers =
              [''Authorization'' \<mapsto> ''Bearer '' @ apiToken cfg,
               ''Content-Type'' \<mapsto> ''application/json''],
            req_body = Some (JSON_stringify
              [(''searchTerm'', Some (BString (query options))),
               (''spaceIds'', Some (BStrings (spaceIds options))),
               (''mode'', Some (BString (case mode options of
                                          None \<Rightarrow> ''fullText''
                                        | Some m \<Rightarrow> mode_string m))),
               (''filterStructureIds'', map_option BStrings (structureIds options))])\<rparr>"
proof -
  from assms obtain c0 where
    c0: "makeRequest cfg fetch ''/search''
          \<lparr>method' = Some ''POST'',
           headers = Map.empty,
           body = Some (JSON_stringify
             [(''searchTerm'', Some (BString (query options))),
              (''spaceIds'', Some (BStrings (spaceIds options))),
              (''mode'', Some (BString (case mode options of
                                         None \<Rightarrow> ''fullText''
                                       | Some m \<Rightarrow> mode_string m))),
              (''filterStructureIds'', map_option BStrings (structureIds options))])\<rparr>
          now wakes ws = Some c0" and c: "c = unwrap ''results'' c0"
    by (auto simp: searchContent_def)
  show ?thesis
    by (simp add: c sent_unwrap makeRequest_sent [OF c0])
qed

text \<open>
  C8. A call of \<open>searchContent\<close> without \<open>mode\<close> posts to \<open>/search\<close> the text of an
  object whose members are exactly \<open>searchTerm\<close> with the query, \<open>spaceIds\<close> with the
  space ids, \<open>mode\<close> with \<open>fullText\<close>, and, when and only when \<open>structureIds\<close> is
  supplied, \<open>filterStructureIds\<close> with them.
\<close>

theorem searchContent_body_default_mode:
  assumes "searchContent cfg fetch options now wakes ws = Some c" and "mode options = None"
  shows "req_url (sent c) = baseUrl cfg @ ''/search'' \<and>
         req_method (sent c) = Some ''POST'' \<and>
         req_body (sent c) = Some (render_object
           ([(''searchTerm'', BString (query options)),
             (''spaceIds'', BStrings (spaceIds options)),
             (''mode'', BString ''fullText'')] @
            (case structureIds options of
               None \<Rightarrow> []
             | Some ids \<Rightarrow> [(''filterStructureIds'', BStrings ids)])))"
  using assms(2)
  by (simp add: searchContent_request [OF assms(1)] JSON_stringify_def split: option.splits)

theorem searchContent_body_default_mode_witness:
  \<open>searchContent demo_config (upstream (reply 200)) demo_search 0 [] Map.empty \<noteq> None \<and>
   mode demo_search = None \<and>
   req_url (sent (the (searchContent demo_config (upstream (reply 200)) demo_search 0 [] Map.empty))) =
     ''https://api.example/search'' \<and>
   req_body (sent (the (searchContent demo_config (upstream (reply 200)) demo_search 0 [] Map.empty))) =
     Some ''{"searchTerm":"x","spaceIds":["s1"],"mode":"fullText"}'' \<and>
   req_body (sent (the (searchContent demo_config (upstream (reply 200))
       (demo_search\<lparr>structureIds := Some [''t1'', ''t2'']\<rparr>) 0 [] Map.empty))) =
     Some ''{"searchTerm":"x","spaceIds":["s1"],"mode":"fullText","filterStructureIds":["t1","t2"]}''\<close>
proof -
  have m: "mode demo_search = None" "mode (demo_search\<lparr>structureIds := Some [''t1'', ''t2'']\<rparr>) = None"
    by (simp_all add: demo_search_def)
  note plain = searchContent_body_default_mode [OF searchContent_fresh m(1),
      where cfg = demo_config and fetch = "upstream (reply 200)" and now = 0 and wakes = "[]"]
  note filtered = searchContent_body_default_mode [OF searchContent_fresh m(2),
      where cfg = demo_config and fetch = "upstream (reply 200)" and now = 0 and wakes = "[]"]
  have ne: "searchContent demo_config (upstream (reply 200)) demo_search 0 [] Map.empty \<noteq> None"
    by (rule searchContent_fresh_ne)
  show ?thesis
    using plain filtered ne m(1)
    by (simp add: demo_search_def demo_config_def render_object_def quote_def quote_char_def)
qed

lemma saveWeblink_request:
  assumes "saveWeblink cfg fetch options now wakes ws = Some c"
  shows "req_url (sent c) = baseUrl cfg @ ''/save-weblink''"
    and "req_method (sent c) = Some ''POST''"
    and "req_body (sent c) = Some (JSON_stringify
          [(''spaceId'', Some (BString (spaceId options))),
           (''url'', Some (BString (url options))),
           (''titleOverwrite'', map_option BString (title options)),
           (''descriptionOverwrite'', map_option BString (description options)),
           (''tags'', Some (BStrings (case tags options of None \<Rightarrow> [] | Some ts \<Rightarrow> ts))),
           (''mdText'', map_option BString (notes' options))])"
  using makeRequest_sent [OF assms [unfolded saveWeblink_def]] by simp_all

text \<open>
  C9. The body \<open>saveWeblink\<close> posts to \<open>/save-weblink\<close> always has the member \<open>tags\<close>
  with a list: the given tags, and the empty list when \<open>tags\<close> is omitted. \<open>title\<close>,
  \<open>description\<close> and \<open>notes\<close> are sent as \<open>titleOverwrite\<close>,
  \<open>descriptionOverwrite\<close> and \<open>mdText\<close>, each present when its argument is.
\<close>

theorem saveWeblink_body_tags_always_list:
  assumes "saveWeblink cfg fetch options now wakes ws = Some c"
  shows "req_url (sent c) = baseUrl cfg @ ''/save-weblink'' \<and>
         req_method (sent c) = Some ''POST'' \<and>
         req_body (sent c) = Some (render_object
           ([(''spaceId'', BString (spaceId options)), (''url'', BString (url options))] @
            optional_member ''titleOverwrite'' (title options) @
            optional_member ''descriptionOverwrite'' (description options) @
            [(''tags'', BStrings (case tags options of None \<Rightarrow> [] | Some ts \<Rightarrow> ts))] @
            optional_member ''mdText'' (notes' options)))"
  by (cases "title options"; cases "description options"; cases "notes' options")
     (simp_all add: saveWeblink_request [OF assms] JSON_stringify_def)

theorem saveWeblink_body_tags_always_list_witness:
  \<open>saveWeblink demo_config (upstream empty_reply) demo_weblink 0 [] Map.empty \<noteq> None \<and>
   tags demo_weblink = None \<and>
   req_url (sent (the (saveWeblink demo_config (upstream empty_reply) demo_weblink 0 [] Map.empty))) =
     ''https://api.example/save-weblink'' \<and>
   req_body (sent (the (saveWeblink demo_config (upstream empty_reply) demo_weblink 0 [] Map.empty))) =
     Some ''{"spaceId":"sp","url":"https://e.org","titleOverwrite":"T","tags":[]}'' \<and>
   req_body (sent (the (saveWeblink demo_config (upstream empty_reply)
       (demo_weblink\<lparr>tags := Some [''a'', ''b''], notes' := Some ''n''\<rparr>) 0 [] Map.empty))) =
     Some ''{"spaceId":"sp","url":"https://e.org","titleOverwrite":"T","tags":["a","b"],"mdText":"n"}''\<close>
proof -
  note omitted = saveWeblink_body_tags_always_list [OF saveWeblink_fresh,
      where cfg = demo_config and fetch = "upstream empty_reply" and options = demo_weblink
        and now = 0 and wakes = "[]"]
  note given = saveWeblink_body_tags_always_list [OF saveWeblink_fresh,
      where cfg = demo_config and fetch = "upstream empty_reply"
        and options = "demo_weblink\<lparr>tags := Some [''a'', ''b''], notes' := Some ''n''\<rparr>"
        and now = 0 and wakes = "[]"]
  have ne: "saveWeblink demo_config (upstream empty_reply) demo_weblink 0 [] Map.empty \<noteq> None"
    by (rule saveWeblink_fresh_ne)
  show ?thesis
    using omitted given ne
    by (simp add: demo_weblink_def demo_config_def render_object_def quote_def quote_char_def)
qed

lemma normalize_marker:
  assumes "contentLength response = Some ''0'' \<or>
           (\<forall>ct. contentType response = Some ct \<longrightarrow> \<not> includes_str ct ''application/json'') \<or>
           jsonBody response = None"
  shows "normalize_response response = success_marker"
  using assms by (auto simp: normalize_response_def split: option.splits)

lemma makeRequest_marker:
  assumes "makeRequest cfg (upstream response) endpoint ini now wakes ws = Some c"
    and "ok response"
    and "contentLength response = Some ''0'' \<or>
           (\<forall>ct. contentType response = Some ct \<longrightarrow> \<not> includes_str ct ''application/json'') \<or>
           jsonBody response = None"
  shows "result c = Returned success_marker"
  using makeRequest_result [OF assms(1)] assms(2) normalize_marker [OF assms(3)]
  by (simp add: upstream_def)

lemma unwrap_marker:
  "result c = Returned success_marker \<Longrightarrow> name \<noteq> ''success'' \<Longrightarrow>
     result (unwrap name c) = Returned None"
  by (simp add: unwrap_def success_marker_def)

text \<open>
  C10. For every response with a status from 200 to 299 whose \<open>content-length\<close> is
  \<open>0\<close>, whose \<open>content-type\<close> does not contain \<open>application/json\<close> or whose body
  does not parse, \<open>searchContent\<close> and \<open>getSpaces\<close> return \<open>undefined\<close>, which is not
  an array: the marker \<open>{success: true}\<close> has neither \<open>results\<close> nor \<open>spaces\<close>. The
  witness below is such a response.
\<close>

theorem marker_breaks_list_results:
  assumes "ok response"
    and "contentLength response = Some ''0'' \<or>
           (\<forall>ct. contentType response = Some ct \<longrightarrow> \<not> includes_str ct ''application/json'') \<or>
           jsonBody response = None"
    and "searchContent cfg (upstream response) options now wakes ws = Some c"
    and "getSpaces cfgS (upstream response) nowS wakesS wsS = Some cS"
  shows "result c = Returned None \<and> result cS = Returned None \<and> \<not> is_array None"
proof -
  from assms(3) obtain c0 ini where
    "makeRequest cfg (upstream response) ''/search'' ini now wakes ws = Some c0"
    and "c = unwrap ''results'' c0"
    by (auto simp: searchContent_def)
  with makeRequest_marker [OF _ assms(1,2)] have 1: "result c = Returned None"
    by (simp add: unwrap_marker)
  from assms(4) obtain c1 where
    "makeRequest cfgS (upstream response) ''/spaces'' no_options nowS wakesS wsS = Some c1"
    and "cS = unwrap ''spaces'' c1"
    by (auto simp: getSpaces_def)
  with makeRequest_marker [OF _ assms(1,2)] have 2: "result cS = Returned None"
    by (simp add: unwrap_marker)
  from 1 2 show ?thesis by simp
qed

theorem marker_breaks_list_results_witness:
  "ok empty_reply \<and> contentLength empty_reply = Some ''0'' \<and>
   searchContent demo_config (upstream empty_reply) demo_search 0 [] Map.empty \<noteq> None \<and>
   getSpaces demo_config (upstream empty_reply) 0 [] Map.empty \<noteq> None \<and>
   result (the (searchContent demo_config (upstream empty_reply) demo_search 0 [] Map.empty)) =
     Returned None \<and>
   result (the (getSpaces demo_config (upstream empty_reply) 0 [] Map.empty)) = Returned None \<and>
   \<not> is_array None"
proof -
  have okr: "ok empty_reply" and len: "contentLength empty_reply = Some ''0''"
    by (simp_all add: ok_def empty_reply_def)
  have cond: "contentLength empty_reply = Some ''0'' \<or>
           (\<forall>ct. contentType empty_reply = Some ct \<longrightarrow> \<not> includes_str ct ''application/json'') \<or>
           jsonBody empty_reply = None"
    using len by simp
  note inst = marker_breaks_list_results [OF okr cond searchContent_fresh getSpaces_fresh,
      where cfg = demo_config and options = demo_search and now = 0 and wakes = "[]"
        and cfgS = demo_config and nowS = 0 and wakesS = "[]"]
  have ne: "searchContent demo_config (upstream empty_reply) demo_search 0 [] Map.empty \<noteq> None"
    "getSpaces demo_config (upstream empty_reply) 0 [] Map.empty \<noteq> None"
    by (rule searchContent_fresh_ne, rule getSpaces_fresh_ne)
  show ?thesis
    using inst okr len ne by simp
qed

end
